theory Spec2Isabelle
  imports Main "HOL-Library.List_Lexorder" "HOL-Library.Multiset"
begin

section \<open>Data model\<close>

text \<open>
  A Python \<^verbatim>\<open>str\<close> is a sequence of Unicode code points, and \<^verbatim>\<open>a > b\<close> on two
  strings compares them lexicographically by code point, a proper prefix being smaller.
  A code point is a natural number here and a string a list of them, ordered by the
  lexicographic order on lists; the empty list is the empty string, the only falsy one.
\<close>

type_synonym codepoint = nat
type_synonym pystr = "codepoint list"

definition py :: "string \<Rightarrow> pystr" where
  \<comment> \<open>the code points of an ASCII literal\<close>
  "py s = map of_char s"

text \<open>
  The dictionaries built by \<^verbatim>\<open>get_trump_posts\<close> always carry the four keys
  \<^verbatim>\<open>id\<close>, \<^verbatim>\<open>content\<close>, \<^verbatim>\<open>timestamp\<close> and \<^verbatim>\<open>link\<close>. Three of them are always
  strings; \<^verbatim>\<open>timestamp\<close> is \<^verbatim>\<open>timestamp_elem.get('datetime')\<close>, which is \<^verbatim>\<open>None\<close>
  when the matched element has no such attribute.
\<close>

record post =
  post_id :: pystr
  content :: pystr
  timestamp :: "pystr option"
  link :: pystr

datatype error = TypeError | OSError

section \<open>The novelty filter (main, the loop over the sorted posts)\<close>

text \<open>
  \<^verbatim>\<open>
    new_posts = []
    newest_post_id = last_post_id
    for post in posts:
        post_id = post.get('id')
        if not last_post_id or post_id > last_post_id:
            new_posts.append(post)
            if not newest_post_id or post_id > newest_post_id:
                newest_post_id = post_id
  \<close>
  The loop state is the pair of \<^verbatim>\<open>new_posts\<close> and \<^verbatim>\<open>newest_post_id\<close>.
\<close>

fun filter_loop :: "pystr \<Rightarrow> post list \<Rightarrow> post list \<times> pystr \<Rightarrow> post list \<times> pystr" where
  "filter_loop last_post_id [] (new_posts, newest_post_id) = (new_posts, newest_post_id)"
| "filter_loop last_post_id (p # posts) (new_posts, newest_post_id) =
     (if last_post_id = [] \<or> post_id p > last_post_id
      then filter_loop last_post_id posts
             (new_posts @ [p],
              if newest_post_id = [] \<or> post_id p > newest_post_id
              then post_id p else newest_post_id)
      else filter_loop last_post_id posts (new_posts, newest_post_id))"

definition novelty_filter :: "pystr \<Rightarrow> post list \<Rightarrow> post list \<times> pystr" where
  "novelty_filter last_post_id posts = filter_loop last_post_id posts ([], last_post_id)"

text \<open>
  \<^verbatim>\<open>posts.sort(key=lambda x: x.get('timestamp', ''))\<close> is a stable ascending sort by
  key. Comparing \<^verbatim>\<open>None\<close> with a string or with \<^verbatim>\<open>None\<close> by \<^verbatim>\<open><\<close> raises
  \<^verbatim>\<open>TypeError\<close>, and sorting two or more elements compares every key at least once,
  so the sort raises as soon as a list of two or more posts holds a \<^verbatim>\<open>None\<close>
  timestamp. A single post is never compared.
\<close>

definition sort_key_of :: "post \<Rightarrow> pystr" where
  "sort_key_of p = (case timestamp p of Some t \<Rightarrow> t | None \<Rightarrow> [])"

definition sort_posts :: "post list \<Rightarrow> error + post list" where
  "sort_posts posts =
     (if 2 \<le> length posts \<and> list_ex (\<lambda>p. timestamp p = None) posts
      then Inl TypeError
      else Inr (sort_key sort_key_of posts))"

section \<open>The cursor file\<close>

text \<open>
  \<^verbatim>\<open>LAST_POST_FILE\<close> is opened in text mode with the default \<^verbatim>\<open>newline=None\<close>.
  On writing, every \<^verbatim>\<open>'\n'\<close> becomes \<^verbatim>\<open>os.linesep\<close>; on reading, universal
  newlines are on: \<^verbatim>\<open>'\r\n'\<close> and a lone \<^verbatim>\<open>'\r'\<close> both come back as \<^verbatim>\<open>'\n'\<close>.
  The file is modelled by its text before that translation on reading (encoding and
  decoding with the one locale encoding are taken to be inverse), \<open>None\<close> when the file
  does not exist.
\<close>

fun write_newlines :: "pystr \<Rightarrow> pystr \<Rightarrow> pystr" where
  "write_newlines sep [] = []"
| "write_newlines sep (c # cs) =
     (if c = 10 then sep @ write_newlines sep cs else c # write_newlines sep cs)"

fun universal_newlines :: "pystr \<Rightarrow> pystr" where
  "universal_newlines [] = []"
| "universal_newlines [c] = (if c = 13 then [10] else [c])"
| "universal_newlines (c # d # cs) =
     (if c = 13 \<and> d = 10 then 10 # universal_newlines cs
      else if c = 13 then 10 # universal_newlines (d # cs)
      else c # universal_newlines (d # cs))"

text \<open>
  \<^verbatim>\<open>str.strip()\<close> without argument removes leading and trailing characters for
  which \<^verbatim>\<open>str.isspace\<close> holds; these are the code points below.
\<close>

definition isspace :: "codepoint \<Rightarrow> bool" where
  "isspace c =
     ((9 \<le> c \<and> c \<le> 13) \<or> (28 \<le> c \<and> c \<le> 32) \<or> c = 133 \<or> c = 160 \<or> c = 5760 \<or>
      (8192 \<le> c \<and> c \<le> 8202) \<or> c = 8232 \<or> c = 8233 \<or> c = 8239 \<or> c = 8287 \<or>
      c = 12288)"

definition strip :: "pystr \<Rightarrow> pystr" where
  "strip s = rev (dropWhile isspace (rev (dropWhile isspace s)))"

section \<open>The environment and the effects of a run\<close>

text \<open>
  What the outside world answers is a parameter of the model:
  the two configuration values read by \<^verbatim>\<open>os.getenv\<close>, the platform's line separator,
  the outcome of \<^verbatim>\<open>requests.get\<close> (an exception or a response with its status and
  text), the extraction of the post dictionaries from the page by BeautifulSoup
  (\<open>None\<close> when an exception escapes to the outer \<^verbatim>\<open>except\<close>), the outcome of each
  \<^verbatim>\<open>requests.post\<close> (indexed by the number of effects that came before it), and
  what happens when the cursor file is written: \<^verbatim>\<open>open(..., "w")\<close> may fail and leave
  the file alone; once it has succeeded the file is truncated, and \<^verbatim>\<open>f.write\<close> and
  the closing flush either complete or raise after only the first \<open>k\<close> characters
  have reached the file.
\<close>

datatype fetch_outcome = GetRaised | GetResponse nat pystr
datatype http_outcome = PostRaised | PostStatus nat
datatype write_outcome = Written | OpenFailed | WriteFailed nat

record env =
  LINE_CHANNEL_TOKEN :: "pystr option"
  LINE_USER_ID :: "pystr option"
  linesep :: pystr
  http_get :: fetch_outcome
  extract_posts :: "pystr \<Rightarrow> post list option"
  http_post :: "nat \<Rightarrow> http_outcome"
  file_write :: write_outcome

record request =
  authorization :: pystr
  to :: "pystr option"
  text_of :: pystr

text \<open>
  The effects of a run, in the order they happen: a call of
  \<^verbatim>\<open>send_line_notification\<close> that returns before any request (\<open>Skipped\<close>), an HTTP
  POST with its outcome (\<open>Posted\<close>), a call of \<^verbatim>\<open>save_last_processed_id\<close>
  (\<open>Save\<close>). Log lines are not modelled.
\<close>

datatype event = Skipped pystr | Posted request http_outcome | Save pystr

record world =
  last_post_file :: "pystr option"
  trace :: "event list"

section \<open>get_last_processed_id, save_last_processed_id\<close>

text \<open>
  \<^verbatim>\<open>
    try:
        with open(LAST_POST_FILE, "r") as f:
            return f.read().strip()
    except FileNotFoundError:
        return ""
  \<close>
  \<^verbatim>\<open>FileNotFoundError\<close> is the one failure of reading that the model has.
\<close>

definition get_last_processed_id :: "world \<Rightarrow> pystr" where
  "get_last_processed_id w =
     (case last_post_file w of
        None \<Rightarrow> []
      | Some stored \<Rightarrow> strip (universal_newlines stored))"

text \<open>
  \<^verbatim>\<open>
    with open(LAST_POST_FILE, "w") as f:
        f.write(post_id)
  \<close>
  No exception is caught here: a failure is the result \<open>Inl OSError\<close>, next to the
  world it leaves behind. The argument \<^verbatim>\<open>post_id\<close> is \<open>pid\<close> here.
\<close>

definition save_last_processed_id :: "env \<Rightarrow> pystr \<Rightarrow> world \<Rightarrow> (error + unit) \<times> world" where
  "save_last_processed_id e pid w =
     (let w1 = w\<lparr>trace := trace w @ [Save pid]\<rparr>;
          written = write_newlines (linesep e) pid
      in case file_write e of
           OpenFailed \<Rightarrow> (Inl OSError, w1)
         | WriteFailed k \<Rightarrow> (Inl OSError, w1\<lparr>last_post_file := Some (take k written)\<rparr>)
         | Written \<Rightarrow> (Inr (), w1\<lparr>last_post_file := Some written\<rparr>))"

section \<open>get_trump_posts\<close>

text \<open>
  \<^verbatim>\<open>
    try:
        response = requests.get(TRUTH_SOCIAL_URL, headers=headers)
        if response.status_code != 200:
            return []
        ... results = the dictionaries extracted from response.text ...
        return results
    except Exception as e:
        return []
  \<close>
\<close>

definition get_trump_posts :: "env \<Rightarrow> post list" where
  "get_trump_posts e =
     (case http_get e of
        GetRaised \<Rightarrow> []
      | GetResponse status_code body \<Rightarrow>
          if status_code \<noteq> 200 then []
          else (case extract_posts e body of None \<Rightarrow> [] | Some results \<Rightarrow> results))"

section \<open>send_line_notification\<close>

text \<open>
  \<^verbatim>\<open>
    if not LINE_CHANNEL_TOKEN or not LINE_USER_ID:
        return False
    headers = {..., "Authorization": f"Bearer {LINE_CHANNEL_TOKEN}"}
    payload = {"to": LINE_USER_ID, "messages": [{"type": "text", "text": message}]}
    try:
        response = requests.post(LINE_API_URL, headers=headers, data=json.dumps(payload))
        if response.status_code == 200:
            return True
        else:
            return False
    except Exception as e:
        return False
  \<close>
  \<^verbatim>\<open>not x\<close> holds of \<^verbatim>\<open>None\<close> and of the empty string. Everything that can raise
  is inside the \<^verbatim>\<open>try\<close>; \<open>PostRaised\<close> is the branch of the \<^verbatim>\<open>except\<close>.
\<close>

definition falsy :: "pystr option \<Rightarrow> bool" where
  "falsy x = (x = None \<or> x = Some [])"

definition fstr :: "pystr option \<Rightarrow> pystr" where
  \<comment> \<open>how an f-string formats the value\<close>
  "fstr x = (case x of None \<Rightarrow> py ''None'' | Some s \<Rightarrow> s)"

definition send_line_notification :: "env \<Rightarrow> pystr \<Rightarrow> world \<Rightarrow> bool \<times> world" where
  "send_line_notification e message w =
     (if falsy (LINE_CHANNEL_TOKEN e) \<or> falsy (LINE_USER_ID e)
      then (False, w\<lparr>trace := trace w @ [Skipped message]\<rparr>)
      else
        let payload = \<lparr>authorization = py ''Bearer '' @ fstr (LINE_CHANNEL_TOKEN e),
                       to = LINE_USER_ID e, text_of = message\<rparr>;
            response = http_post e (length (trace w));
            w1 = w\<lparr>trace := trace w @ [Posted payload response]\<rparr>
        in case response of
             PostRaised \<Rightarrow> (False, w1)
           | PostStatus status_code \<Rightarrow>
               if status_code = 200 then (True, w1) else (False, w1))"

section \<open>main\<close>

definition notification_message :: "post \<Rightarrow> pystr" where
  \<comment> \<open>the f-string of the delivery loop, its CJK characters by code point\<close>
  "notification_message p =
     py ''Donald Trump '' @ [0x6709, 0x65B0, 0x8CBC, 0x6587, 0xFF01, 10, 10] @ content p @
     [10, 10, 0x9023, 0x7D50] @ py '': '' @ link p"

text \<open>
  \<^verbatim>\<open>
    for post in new_posts:
        message = f"..."
        if send_line_notification(message):
            logger.info(...)
  \<close>
\<close>

fun deliver :: "env \<Rightarrow> post list \<Rightarrow> world \<Rightarrow> world" where
  "deliver e [] w = w"
| "deliver e (p # new_posts) w =
     deliver e new_posts (snd (send_line_notification e (notification_message p) w))"

text \<open>
  \<^verbatim>\<open>
    last_post_id = get_last_processed_id()
    posts = get_trump_posts()
    if not posts:
        return
    posts.sort(key=lambda x: x.get('timestamp', ''))
    ... the novelty filter ...
    if new_posts:
        for post in new_posts: ...
        save_last_processed_id(newest_post_id)
  \<close>
\<close>

definition main :: "env \<Rightarrow> world \<Rightarrow> (error + unit) \<times> world" where
  "main e w =
     (let last_post_id = get_last_processed_id w;
          posts = get_trump_posts e
      in if posts = [] then (Inr (), w)
         else case sort_posts posts of
                Inl err \<Rightarrow> (Inl err, w)
              | Inr sorted_posts \<Rightarrow>
                  (case novelty_filter last_post_id sorted_posts of
                     (new_posts, newest_post_id) \<Rightarrow>
                       if new_posts \<noteq> []
                       then save_last_processed_id e newest_post_id (deliver e new_posts w)
                       else (Inr (), w)))"

section \<open>Reading the trace\<close>

text \<open>
  The effect one call of \<^verbatim>\<open>send_line_notification\<close> leaves in the trace when \<open>n\<close>
  effects came before it: no request without the configuration, else the request
  with whatever outcome the environment gives it.
\<close>

definition attempt_event :: "env \<Rightarrow> nat \<Rightarrow> pystr \<Rightarrow> event" where
  "attempt_event e n message =
     (if falsy (LINE_CHANNEL_TOKEN e) \<or> falsy (LINE_USER_ID e) then Skipped message
      else Posted \<lparr>authorization = py ''Bearer '' @ fstr (LINE_CHANNEL_TOKEN e),
                   to = LINE_USER_ID e, text_of = message\<rparr> (http_post e n))"

section \<open>Sample data\<close>

definition mk_post :: "string \<Rightarrow> string \<Rightarrow> post" where
  "mk_post i t =
     \<lparr>post_id = py i, content = py ''text'', timestamp = Some (py t),
      link = py ''https://truthsocial.com/p''\<rparr>"

definition p101 :: post where "p101 = mk_post ''101'' ''2025-01-03''"
definition p099 :: post where "p099 = mk_post ''099'' ''2025-01-01''"
definition p102 :: post where "p102 = mk_post ''102'' ''2025-01-02''"
definition p_noid :: post where "p_noid = mk_post [] ''2025-01-01''"

definition sample_env :: env where
  "sample_env =
     \<lparr>LINE_CHANNEL_TOKEN = Some (py ''tok''), LINE_USER_ID = Some (py ''U1''),
      linesep = [10],
      http_get = GetResponse 200 (py ''<html>''),
      extract_posts = (\<lambda>body. Some [p101, p099, p102]),
      http_post = (\<lambda>n. if n = 0 then PostStatus 500 else PostStatus 200),
      file_write = Written\<rparr>"

definition failing_fetch_env :: env where
  "failing_fetch_env = sample_env\<lparr>http_get := GetResponse 503 (py ''busy'')\<rparr>"




definition sample_world :: world where
  "sample_world = \<lparr>last_post_file = Some (py ''100''), trace = []\<rparr>"

section \<open>The novelty filter: properties\<close>

lemma filter_loop_fst:
  "fst (filter_loop c S (new, newest)) =
     new @ filter (\<lambda>r. c = [] \<or> post_id r > c) S"
  by (induction S arbitrary: new newest) auto

lemma filter_loop_snd:
  "snd (filter_loop c S (new, newest)) =
     fold (\<lambda>r m. max m (post_id r)) (filter (\<lambda>r. c = [] \<or> post_id r > c) S) newest"
proof (induction S arbitrary: new newest)
  case Nil
  then show ?case by simp
next
  case (Cons p S)
  have m: "(if newest = [] \<or> post_id p > newest then post_id p else newest)
             = max newest (post_id p)"
    by (auto simp: max_def)
  show ?case using Cons by (simp add: m)
qed

lemma fold_max_Max:
  "fold (\<lambda>r m. max m (post_id r)) xs (m0::pystr) = Max (insert m0 (post_id ` set xs))"
proof (induction xs arbitrary: m0)
  case Nil
  then show ?case by simp
next
  case (Cons x xs)
  have "Max (insert (max m0 (post_id x)) (post_id ` set xs))
          = Max (insert m0 (insert (post_id x) (post_id ` set xs)))"
  proof (cases "set xs = {}")
    case True
    then show ?thesis by simp
  next
    case False
    then show ?thesis by (simp add: max.assoc)
  qed
  then show ?case using Cons by simp
qed

lemma novelty_filter_eq:
  "novelty_filter c S =
     (filter (\<lambda>r. c = [] \<or> post_id r > c) S,
      Max (insert c (post_id ` set (filter (\<lambda>r. c = [] \<or> post_id r > c) S))))"
  unfolding novelty_filter_def
  by (rule prod_eqI) (simp_all add: filter_loop_fst filter_loop_snd fold_max_Max)

lemma monotonic_filter_fst:
  "fst (novelty_filter c S) = filter (\<lambda>r. c = [] \<or> post_id r > c) S"
  by (simp add: novelty_filter_eq)

lemmas sample_posts = p101_def p099_def p102_def p_noid_def mk_post_def py_def

lemma newest_ge_cursor: "c \<le> snd (novelty_filter c S)"
  by (simp add: novelty_filter_eq)

lemma newest_ge_new:
  "r \<in> set (fst (novelty_filter c S)) \<Longrightarrow> post_id r \<le> snd (novelty_filter c S)"
  by (simp add: novelty_filter_eq)

lemma newest_ge_all: "r \<in> set S \<Longrightarrow> post_id r \<le> snd (novelty_filter c S)"
proof (cases "c = [] \<or> post_id r > c")
  case True
  assume "r \<in> set S"
  with True have "r \<in> set (fst (novelty_filter c S))" by (simp add: novelty_filter_eq)
  then show ?thesis by (rule newest_ge_new)
next
  case False
  then have "post_id r \<le> c" by auto
  also have "c \<le> snd (novelty_filter c S)" by (rule newest_ge_cursor)
  finally show ?thesis .
qed

lemma newest_unchanged_iff:
  "snd (novelty_filter c S) = c \<longleftrightarrow> (\<forall>r \<in> set (fst (novelty_filter c S)). post_id r = [])"
proof
  assume eq: "snd (novelty_filter c S) = c"
  show "\<forall>r \<in> set (fst (novelty_filter c S)). post_id r = []"
  proof
    fix r assume r: "r \<in> set (fst (novelty_filter c S))"
    then have le: "post_id r \<le> c" using newest_ge_new [OF r] eq by simp
    from r have "c = [] \<or> post_id r > c" by (simp add: novelty_filter_eq)
    with le have "c = []" by auto
    with le show "post_id r = []" by simp
  qed
next
  assume all: "\<forall>r \<in> set (fst (novelty_filter c S)). post_id r = []"
  have "Max (insert c (post_id ` set (fst (novelty_filter c S)))) = c"
  proof (rule Max_eqI)
    show "finite (insert c (post_id ` set (fst (novelty_filter c S))))" by simp
    show "c \<in> insert c (post_id ` set (fst (novelty_filter c S)))" by simp
    fix y assume "y \<in> insert c (post_id ` set (fst (novelty_filter c S)))"
    with all have "y = c \<or> y = []" by auto
    then show "y \<le> c" by auto
  qed
  then show "snd (novelty_filter c S) = c" by (simp add: novelty_filter_eq)
qed

lemma novelty_filter_perm:
  assumes "mset S = mset S'"
  shows "mset (fst (novelty_filter c S)) = mset (fst (novelty_filter c S'))"
    and "snd (novelty_filter c S) = snd (novelty_filter c S')"
proof -
  have "mset (filter (\<lambda>r. c = [] \<or> post_id r > c) S) = mset (filter (\<lambda>r. c = [] \<or> post_id r > c) S')"
    using assms by (simp only: mset_filter)
  then show m: "mset (fst (novelty_filter c S)) = mset (fst (novelty_filter c S'))"
    by (simp only: monotonic_filter_fst)
  then have "set (fst (novelty_filter c S)) = set (fst (novelty_filter c S'))"
    by (rule mset_eq_setD)
  then show "snd (novelty_filter c S) = snd (novelty_filter c S')"
    by (simp add: novelty_filter_eq)
qed

lemma sort_posts_perm:
  assumes "mset S = mset S'"
  shows "isl (sort_posts S) \<longleftrightarrow> isl (sort_posts S')"
proof -
  have "length S = length S'" using assms by (rule mset_eq_length)
  moreover have "set S = set S'" using assms by (rule mset_eq_setD)
  ultimately show ?thesis by (simp add: sort_posts_def list_ex_iff)
qed

lemma sort_posts_mset: "sort_posts S = Inr T \<Longrightarrow> mset T = mset S"
  by (auto simp: sort_posts_def split: if_splits)

section \<open>Delivery, persistence and the cursor file: auxiliary facts\<close>

lemma send_line_notification_world:
  "snd (send_line_notification e message w) =
     w\<lparr>trace := trace w @ [attempt_event e (length (trace w)) message]\<rparr>"
  by (simp add: send_line_notification_def attempt_event_def Let_def split: http_outcome.splits)

lemma deliver_world:
  "deliver e ps w =
     w\<lparr>trace := trace w @
        map (\<lambda>i. attempt_event e (length (trace w) + i) (notification_message (ps ! i)))
          [0..<length ps]\<rparr>"
proof (induction ps arbitrary: w)
  case Nil
  then show ?case by simp
next
  case (Cons p ps)
  have up: "[0..<length (p # ps)] = 0 # map Suc [0..<length ps]"
    by (simp add: upt_conv_Cons map_Suc_upt del: upt_Suc)
  show ?case
    by (simp only: deliver.simps Cons.IH send_line_notification_world up)
       (simp add: comp_def)
qed

lemma main_delivering:
  assumes "sort_posts (get_trump_posts e) = Inr sorted_posts"
    and "novelty_filter (get_last_processed_id w) sorted_posts = (new_posts, newest)"
    and "new_posts \<noteq> []"
  shows "main e w = save_last_processed_id e newest (deliver e new_posts w)"
proof -
  have "sorted_posts \<noteq> []"
    using assms(2,3) by (auto simp: novelty_filter_def)
  then have "get_trump_posts e \<noteq> []"
    using assms(1) by (auto simp: sort_posts_def split: if_splits)
  then show ?thesis using assms by (simp add: main_def)
qed

lemma write_newlines_lf: "write_newlines [10] s = s"
  by (induction s) auto

lemma universal_newlines_Cons: "c \<noteq> 13 \<Longrightarrow> universal_newlines (c # cs) = c # universal_newlines cs"
  by (cases cs) auto

lemma universal_newlines_no_cr: "13 \<notin> set s \<Longrightarrow> universal_newlines s = s"
  by (induction s) (auto simp: universal_newlines_Cons)

lemma universal_newlines_crlf:
  "13 \<notin> set s \<Longrightarrow> universal_newlines (write_newlines [13, 10] s) = s"
  by (induction s) (auto simp: universal_newlines_Cons)

lemma text_mode_roundtrip:
  assumes "sep = [10] \<or> sep = [13, 10]" and "13 \<notin> set s"
  shows "universal_newlines (write_newlines sep s) = s"
  using assms by (auto simp: write_newlines_lf universal_newlines_no_cr universal_newlines_crlf)

lemma newest_nonempty_iff:
  "snd (novelty_filter c S) \<noteq> [] \<longleftrightarrow> (c \<noteq> [] \<or> (\<exists>r \<in> set S. post_id r \<noteq> []))"
proof
  assume ne: "snd (novelty_filter c S) \<noteq> []"
  show "c \<noteq> [] \<or> (\<exists>r \<in> set S. post_id r \<noteq> [])"
  proof (rule ccontr)
    assume "\<not> (c \<noteq> [] \<or> (\<exists>r \<in> set S. post_id r \<noteq> []))"
    then have c: "c = []" and all: "\<forall>r \<in> set S. post_id r = []" by auto
    have "\<forall>r \<in> set (fst (novelty_filter c S)). post_id r = []"
      using all by (simp add: monotonic_filter_fst)
    then have "snd (novelty_filter c S) = c" by (simp only: newest_unchanged_iff)
    with c ne show False by simp
  qed
next
  assume h: "c \<noteq> [] \<or> (\<exists>r \<in> set S. post_id r \<noteq> [])"
  then show "snd (novelty_filter c S) \<noteq> []"
  proof
    assume "c \<noteq> []"
    moreover have "c \<le> snd (novelty_filter c S)" by (rule newest_ge_cursor)
    ultimately show ?thesis by auto
  next
    assume "\<exists>r \<in> set S. post_id r \<noteq> []"
    then obtain r where r: "r \<in> set S" and n: "post_id r \<noteq> []" by auto
    have "post_id r \<le> snd (novelty_filter c S)" using r by (rule newest_ge_all)
    with n show ?thesis by auto
  qed
qed

lemma rerun_empty_iff:
  "fst (novelty_filter (snd (novelty_filter c S)) S) = [] \<longleftrightarrow>
     (snd (novelty_filter c S) \<noteq> [] \<or> S = [])"
proof (cases "snd (novelty_filter c S) = []")
  case True
  then show ?thesis by (simp add: monotonic_filter_fst)
next
  case False
  have "\<forall>r \<in> set S. \<not> post_id r > snd (novelty_filter c S)"
    using newest_ge_all [of _ S c] by (auto simp: not_less)
  with False have "filter (\<lambda>r. snd (novelty_filter c S) = [] \<or> post_id r > snd (novelty_filter c S)) S = []"
    by (simp add: filter_empty_conv)
  with False show ?thesis by (simp add: monotonic_filter_fst)
qed

section \<open>The claims\<close>

text \<open>
  Claim C1 (monotonic filtering). For every cursor \<open>c\<close> and candidate list \<open>S\<close> the
  records classified as new are, in the order of \<open>S\<close>, exactly those \<open>r\<close> with \<open>c\<close>
  empty or \<open>post_id r > c\<close>; as a set this is \<open>{r \<in> S. c = [] \<or> post_id r > c}\<close>, and
  when \<open>c\<close> is not empty no new record has \<open>post_id r \<le> c\<close>.
\<close>

theorem monotonic_filtering:
  "fst (novelty_filter c S) = filter (\<lambda>r. c = [] \<or> post_id r > c) S \<and>
   set (fst (novelty_filter c S)) = {r \<in> set S. c = [] \<or> post_id r > c} \<and>
   (\<forall>r \<in> set (fst (novelty_filter c S)). c \<noteq> [] \<longrightarrow> \<not> post_id r \<le> c)"
  by (auto simp: novelty_filter_eq)

text \<open>The scenario of the specification: cursor 100 and candidates 101, 099, 102.\<close>

theorem monotonic_filtering_witness:
  "fst (novelty_filter (py ''100'') [p101, p099, p102]) = [p101, p102] \<and>
   set (fst (novelty_filter (py ''100'') [p101, p099, p102])) = {p101, p102} \<and>
   py ''100'' \<noteq> [] \<and> \<not> post_id p101 \<le> py ''100'' \<and> \<not> post_id p102 \<le> py ''100''"
  using monotonic_filtering [of "py ''100''" "[p101, p099, p102]"]
  by (simp add: sample_posts)

text \<open>
  Claim C2 (bootstrap). With the empty cursor and a non-empty candidate list, every
  candidate is new and the updated cursor is the greatest id of the candidates.
\<close>

theorem bootstrap:
  "S \<noteq> [] \<Longrightarrow> novelty_filter [] S = (S, Max (post_id ` set S))"
proof -
  assume ne: "S \<noteq> []"
  have "Max (insert [] (post_id ` set S)) = Max (post_id ` set S)"
    using ne by (simp add: max_def)
  then show ?thesis by (simp add: novelty_filter_eq)
qed

theorem bootstrap_witness:
  "[p101, p099, p102] \<noteq> [] \<and> novelty_filter [] [p101, p099, p102] = ([p101, p099, p102], py ''102'')"
  using bootstrap [of "[p101, p099, p102]"]
  by (simp add: sample_posts max_def)

text \<open>
  Claim C3, as stated, says that the updated cursor equals the old one exactly when no
  record is new. A candidate whose id is the empty string is new under the empty
  cursor and leaves the cursor empty.
\<close>

theorem cursor_equality_counterexample:
  "fst (novelty_filter [] [p_noid]) \<noteq> [] \<and> snd (novelty_filter [] [p_noid]) = []"
  by (simp add: novelty_filter_def sample_posts)

text \<open>
  Claim C3 (cursor advance), amended. The updated cursor is the greatest of \<open>c\<close> and
  the ids of the new records, so it is never below \<open>c\<close>; it equals \<open>c\<close> exactly when
  every new record has the empty id, which, when \<open>c\<close> is not empty or no candidate
  has the empty id, is exactly when no record is new.
\<close>

theorem cursor_advance:
  "snd (novelty_filter c S) = Max (insert c (post_id ` set (fst (novelty_filter c S)))) \<and>
   c \<le> snd (novelty_filter c S) \<and>
   (snd (novelty_filter c S) = c \<longleftrightarrow> (\<forall>r \<in> set (fst (novelty_filter c S)). post_id r = [])) \<and>
   (c \<noteq> [] \<or> (\<forall>r \<in> set S. post_id r \<noteq> []) \<longrightarrow>
      (snd (novelty_filter c S) = c \<longleftrightarrow> fst (novelty_filter c S) = []))"
proof (intro conjI impI)
  show "snd (novelty_filter c S) = Max (insert c (post_id ` set (fst (novelty_filter c S))))"
    by (simp add: novelty_filter_eq)
  show "c \<le> snd (novelty_filter c S)" by (rule newest_ge_cursor)
  show "snd (novelty_filter c S) = c \<longleftrightarrow> (\<forall>r \<in> set (fst (novelty_filter c S)). post_id r = [])"
    by (rule newest_unchanged_iff)
next
  assume h: "c \<noteq> [] \<or> (\<forall>r \<in> set S. post_id r \<noteq> [])"
  have "\<forall>r \<in> set (fst (novelty_filter c S)). post_id r \<noteq> []"
    using h by (auto simp: novelty_filter_eq)
  then have "(\<forall>r \<in> set (fst (novelty_filter c S)). post_id r = []) \<longleftrightarrow> fst (novelty_filter c S) = []"
    by (cases "fst (novelty_filter c S)") auto
  then show "snd (novelty_filter c S) = c \<longleftrightarrow> fst (novelty_filter c S) = []"
    by (simp add: newest_unchanged_iff)
qed

theorem cursor_advance_witness:
  "snd (novelty_filter (py ''100'') [p101, p099, p102]) = py ''102'' \<and>
   py ''100'' \<le> py ''102'' \<and>
   py ''100'' \<noteq> [] \<and>
   snd (novelty_filter (py ''100'') [p101, p099, p102]) \<noteq> py ''100'' \<and>
   fst (novelty_filter (py ''100'') [p101, p099, p102]) \<noteq> [] \<and>
   (snd (novelty_filter (py ''100'') [p099]) = py ''100'' \<and>
    fst (novelty_filter (py ''100'') [p099]) = [])"
proof -
  have a: "novelty_filter (py ''100'') [p101, p099, p102] = ([p101, p102], py ''102'')"
    by (simp add: novelty_filter_def sample_posts)
  have b: "fst (novelty_filter (py ''100'') [p099]) = []"
    by (simp add: novelty_filter_def sample_posts)
  have n: "py ''100'' \<noteq> []" by (simp add: py_def)
  have le: "py ''100'' \<le> py ''102''"
    using cursor_advance [of "py ''100''" "[p101, p099, p102]"] by (simp only: a snd_conv)
  have ne: "snd (novelty_filter (py ''100'') [p101, p099, p102]) \<noteq> py ''100''"
  proof -
    have "py ''102'' \<noteq> py ''100''" by (simp add: py_def)
    then show ?thesis by (simp add: a)
  qed
  have eq: "snd (novelty_filter (py ''100'') [p099]) = py ''100''"
    using cursor_advance [of "py ''100''" "[p099]"] n b by simp
  show ?thesis using a b n le ne eq by simp
qed

text \<open>
  Claim C4, as stated, says that a second run on the cursor of the first finds nothing
  new. The candidate with the empty id is found again.
\<close>

theorem rerun_counterexample:
  "fst (novelty_filter (snd (novelty_filter [] [p_noid])) [p_noid]) \<noteq> []"
  by (simp add: novelty_filter_def sample_posts)

text \<open>
  Claim C4 (idempotent re-run), amended. Run on the cursor that the first run
  produced, the filter finds nothing new exactly when that cursor is not empty or
  there is no candidate at all. That cursor is not empty exactly when the first
  cursor is not empty or some candidate has a non-empty id; so whenever the first
  cursor is not empty or some candidate has a non-empty id, the second run finds
  nothing new, and it finds something exactly when there are candidates, all of the
  empty id, under the empty cursor.
\<close>

theorem idempotent_rerun:
  "(fst (novelty_filter (snd (novelty_filter c S)) S) = [] \<longleftrightarrow>
      (snd (novelty_filter c S) \<noteq> [] \<or> S = [])) \<and>
   (snd (novelty_filter c S) \<noteq> [] \<longleftrightarrow> (c \<noteq> [] \<or> (\<exists>r \<in> set S. post_id r \<noteq> []))) \<and>
   (c \<noteq> [] \<or> (\<exists>r \<in> set S. post_id r \<noteq> []) \<longrightarrow>
      fst (novelty_filter (snd (novelty_filter c S)) S) = []) \<and>
   (fst (novelty_filter (snd (novelty_filter c S)) S) = [] \<longleftrightarrow>
      (c \<noteq> [] \<or> (\<exists>r \<in> set S. post_id r \<noteq> []) \<or> S = []))"
proof (intro conjI impI)
  show 1: "fst (novelty_filter (snd (novelty_filter c S)) S) = [] \<longleftrightarrow>
      (snd (novelty_filter c S) \<noteq> [] \<or> S = [])"
    by (rule rerun_empty_iff)
  show 2: "snd (novelty_filter c S) \<noteq> [] \<longleftrightarrow> (c \<noteq> [] \<or> (\<exists>r \<in> set S. post_id r \<noteq> []))"
    by (rule newest_nonempty_iff)
  show "fst (novelty_filter (snd (novelty_filter c S)) S) = [] \<longleftrightarrow>
      (c \<noteq> [] \<or> (\<exists>r \<in> set S. post_id r \<noteq> []) \<or> S = [])"
    using 1 2 by blast
next
  assume "c \<noteq> [] \<or> (\<exists>r \<in> set S. post_id r \<noteq> [])"
  then have "snd (novelty_filter c S) \<noteq> []" by (simp only: newest_nonempty_iff)
  then show "fst (novelty_filter (snd (novelty_filter c S)) S) = []"
    by (simp only: rerun_empty_iff simp_thms)
qed

theorem idempotent_rerun_witness:
  "py ''100'' \<noteq> [] \<and>
   snd (novelty_filter (py ''100'') [p101, p099, p102]) = py ''102'' \<and> py ''102'' \<noteq> [] \<and>
   fst (novelty_filter (py ''102'') [p101, p099, p102]) = [] \<and>
   post_id p101 \<noteq> [] \<and>
   snd (novelty_filter [] [p_noid, p101]) = py ''101'' \<and>
   fst (novelty_filter (py ''101'') [p_noid, p101]) = []"
proof -
  have a: "snd (novelty_filter (py ''100'') [p101, p099, p102]) = py ''102''"
    by (simp add: novelty_filter_def sample_posts)
  have b: "snd (novelty_filter [] [p_noid, p101]) = py ''101''"
    by (simp add: novelty_filter_def sample_posts)
  have n: "py ''100'' \<noteq> []" "py ''102'' \<noteq> []" by (simp_all add: py_def)
  have i: "post_id p101 \<noteq> []" by (simp add: sample_posts)
  have 1: "fst (novelty_filter (snd (novelty_filter (py ''100'') [p101, p099, p102])) [p101, p099, p102]) = []"
    using idempotent_rerun [of "py ''100''" "[p101, p099, p102]"] n(1) by blast
  have "\<exists>r \<in> set [p_noid, p101]. post_id r \<noteq> []" using i by simp
  then have 2: "fst (novelty_filter (snd (novelty_filter [] [p_noid, p101])) [p_noid, p101]) = []"
    using idempotent_rerun [of "[]" "[p_noid, p101]"] by blast
  have x1: "fst (novelty_filter (py ''102'') [p101, p099, p102]) = []"
    using 1 by (simp only: a)
  have x2: "fst (novelty_filter (py ''101'') [p_noid, p101]) = []"
    using 2 by (simp only: b)
  show ?thesis by (intro conjI n a x1 i b x2)
qed

text \<open>
  Claim C5 (the sort only reorders). For two candidate lists that are permutations of
  each other the filter classifies the same records as new (as multisets, hence as
  sets) and computes the same cursor, and the sort raises on both or on neither; when
  the sort returns, its result is a permutation of its input, with the same new
  records and the same cursor.
\<close>

theorem sort_only_reorders:
  "mset S = mset S' \<Longrightarrow>
     mset (fst (novelty_filter c S)) = mset (fst (novelty_filter c S')) \<and>
     set (fst (novelty_filter c S)) = set (fst (novelty_filter c S')) \<and>
     snd (novelty_filter c S) = snd (novelty_filter c S') \<and>
     (isl (sort_posts S) \<longleftrightarrow> isl (sort_posts S')) \<and>
     (\<forall>T. sort_posts S = Inr T \<longrightarrow>
        mset T = mset S \<and>
        set (fst (novelty_filter c T)) = set (fst (novelty_filter c S)) \<and>
        snd (novelty_filter c T) = snd (novelty_filter c S))"
proof (intro conjI allI impI)
  assume p: "mset S = mset S'"
  show "mset (fst (novelty_filter c S)) = mset (fst (novelty_filter c S'))"
    using p by (rule novelty_filter_perm)
  then show "set (fst (novelty_filter c S)) = set (fst (novelty_filter c S'))"
    by (rule mset_eq_setD)
  show "snd (novelty_filter c S) = snd (novelty_filter c S')"
    using p by (rule novelty_filter_perm)
  show "isl (sort_posts S) \<longleftrightarrow> isl (sort_posts S')"
    using p by (rule sort_posts_perm)
next
  fix T assume "sort_posts S = Inr T"
  then show t: "mset T = mset S" by (rule sort_posts_mset)
  have "mset (fst (novelty_filter c T)) = mset (fst (novelty_filter c S))"
    using t by (rule novelty_filter_perm)
  then show "set (fst (novelty_filter c T)) = set (fst (novelty_filter c S))"
    by (rule mset_eq_setD)
  show "snd (novelty_filter c T) = snd (novelty_filter c S)"
    using t by (rule novelty_filter_perm)
qed

theorem sort_only_reorders_witness:
  "mset [p101, p099, p102] = mset [p099, p102, p101] \<and>
   sort_posts [p101, p099, p102] = Inr [p099, p102, p101] \<and>
   fst (novelty_filter (py ''100'') [p101, p099, p102]) = [p101, p102] \<and>
   fst (novelty_filter (py ''100'') [p099, p102, p101]) = [p102, p101] \<and>
   set (fst (novelty_filter (py ''100'') [p101, p099, p102])) =
     set (fst (novelty_filter (py ''100'') [p099, p102, p101])) \<and>
   snd (novelty_filter (py ''100'') [p101, p099, p102]) = py ''102'' \<and>
   snd (novelty_filter (py ''100'') [p099, p102, p101]) = py ''102''"
proof -
  have p: "mset [p101, p099, p102] = mset [p099, p102, p101]" by simp
  have s: "sort_posts [p101, p099, p102] = Inr [p099, p102, p101]"
    by (simp add: sort_posts_def sort_key_of_def sample_posts)
  have a: "novelty_filter (py ''100'') [p101, p099, p102] = ([p101, p102], py ''102'')"
    by (simp add: novelty_filter_def sample_posts)
  have b: "fst (novelty_filter (py ''100'') [p099, p102, p101]) = [p102, p101]"
    by (simp add: novelty_filter_def sample_posts)
  note t = sort_only_reorders [OF p, of "py ''100''"]
  from t have 1: "set (fst (novelty_filter (py ''100'') [p101, p099, p102])) =
     set (fst (novelty_filter (py ''100'') [p099, p102, p101]))" by (rule conjunct1 [OF conjunct2])
  from t have 2: "snd (novelty_filter (py ''100'') [p101, p099, p102]) =
     snd (novelty_filter (py ''100'') [p099, p102, p101])" by (rule conjunct1 [OF conjunct2 [OF conjunct2]])
  have 3: "snd (novelty_filter (py ''100'') [p101, p099, p102]) = py ''102''" by (simp only: a snd_conv)
  have 4: "snd (novelty_filter (py ''100'') [p099, p102, p101]) = py ''102''" using 2 3 by (simp only:)
  have 5: "fst (novelty_filter (py ''100'') [p101, p099, p102]) = [p101, p102]" by (simp only: a fst_conv)
  show ?thesis by (intro conjI p s 5 b 1 3 4)
qed

text \<open>
  Claim C6 (delivery isolation). When the run finds \<open>N\<close> new records, whatever the
  outcomes of the requests are (any status, an exception, at any position), the run
  adds to the trace one attempt per new record, in order, each with the message of its
  record, and then exactly one save, of the greatest id among the new records; when
  the write completes the run returns normally and the file holds that id.
\<close>

theorem delivery_isolation:
  assumes "sort_posts (get_trump_posts e) = Inr sorted_posts"
    and "novelty_filter (get_last_processed_id w) sorted_posts = (new_posts, newest)"
    and "new_posts \<noteq> []"
  shows "trace (snd (main e w)) =
           trace w @
           map (\<lambda>i. attempt_event e (length (trace w) + i) (notification_message (new_posts ! i)))
             [0..<length new_posts] @
           [Save newest] \<and>
         newest = Max (post_id ` set new_posts) \<and>
         (file_write e = Written \<longrightarrow>
            fst (main e w) = Inr () \<and>
            last_post_file (snd (main e w)) = Some (write_newlines (linesep e) newest))"
proof (intro conjI impI)
  note m = main_delivering [OF assms]
  show "trace (snd (main e w)) =
           trace w @
           map (\<lambda>i. attempt_event e (length (trace w) + i) (notification_message (new_posts ! i)))
             [0..<length new_posts] @
           [Save newest]"
    by (simp add: m save_last_processed_id_def deliver_world Let_def split: write_outcome.splits)
  have n: "new_posts = fst (novelty_filter (get_last_processed_id w) sorted_posts)"
    and c: "newest = snd (novelty_filter (get_last_processed_id w) sorted_posts)"
    using assms(2) by simp_all
  have ge: "\<forall>r \<in> set new_posts. get_last_processed_id w \<le> post_id r"
    unfolding n by (auto simp: monotonic_filter_fst)
  have "Max (insert (get_last_processed_id w) (post_id ` set new_posts)) = Max (post_id ` set new_posts)"
  proof -
    obtain r where r: "r \<in> set new_posts" using assms(3) by (cases new_posts) auto
    then have "get_last_processed_id w \<le> post_id r" using ge by simp
    also have "post_id r \<le> Max (post_id ` set new_posts)" using r by simp
    finally have "max (get_last_processed_id w) (Max (post_id ` set new_posts)) = Max (post_id ` set new_posts)"
      by (simp add: max_def)
    moreover have "post_id ` set new_posts \<noteq> {}" using assms(3) by simp
    ultimately show ?thesis by simp
  qed
  then show "newest = Max (post_id ` set new_posts)"
    unfolding c n by (simp add: novelty_filter_eq)
next
  assume "file_write e = Written"
  then show "fst (main e w) = Inr ()"
    by (simp add: main_delivering [OF assms] save_last_processed_id_def Let_def)
next
  assume "file_write e = Written"
  then show "last_post_file (snd (main e w)) = Some (write_newlines (linesep e) newest)"
    by (simp add: main_delivering [OF assms] save_last_processed_id_def Let_def)
qed

text \<open>
  Cursor 100 and candidates 101, 099, 102: sorted by timestamp the new records are
  102 and 101; the first request is answered 500, the second is still made, and the
  cursor 102 is saved once.
\<close>

theorem delivery_isolation_witness:
  "sort_posts (get_trump_posts sample_env) = Inr [p099, p102, p101] \<and>
   novelty_filter (get_last_processed_id sample_world) [p099, p102, p101]
     = ([p102, p101], py ''102'') \<and>
   http_post sample_env 0 = PostStatus 500 \<and>
   trace (snd (main sample_env sample_world)) =
     [Posted \<lparr>authorization = py ''Bearer tok'', to = Some (py ''U1''),
              text_of = notification_message p102\<rparr> (PostStatus 500),
      Posted \<lparr>authorization = py ''Bearer tok'', to = Some (py ''U1''),
              text_of = notification_message p101\<rparr> (PostStatus 200),
      Save (py ''102'')] \<and>
   fst (main sample_env sample_world) = Inr () \<and>
   last_post_file (snd (main sample_env sample_world)) = Some (py ''102'')"
proof -
  have g: "get_trump_posts sample_env = [p101, p099, p102]"
    by (simp add: get_trump_posts_def sample_env_def)
  have a: "sort_posts (get_trump_posts sample_env) = Inr [p099, p102, p101]"
    unfolding g by (simp add: sort_posts_def sort_key_of_def sample_posts)
  have c: "get_last_processed_id sample_world = py ''100''"
    by (simp add: get_last_processed_id_def sample_world_def strip_def isspace_def py_def)
  have b: "novelty_filter (get_last_processed_id sample_world) [p099, p102, p101]
     = ([p102, p101], py ''102'')"
    unfolding c by (simp add: novelty_filter_def sample_posts)
  have n: "[p102, p101] \<noteq> []" by simp
  have w: "file_write sample_env = Written" by (simp add: sample_env_def)
  have h: "http_post sample_env 0 = PostStatus 500" by (simp add: sample_env_def)
  have l: "write_newlines (linesep sample_env) (py ''102'') = py ''102''"
    by (simp add: sample_env_def py_def)
  note t = delivery_isolation [OF a b n]
  have t1: "trace (snd (main sample_env sample_world)) =
     [Posted \<lparr>authorization = py ''Bearer tok'', to = Some (py ''U1''),
              text_of = notification_message p102\<rparr> (PostStatus 500),
      Posted \<lparr>authorization = py ''Bearer tok'', to = Some (py ''U1''),
              text_of = notification_message p101\<rparr> (PostStatus 200),
      Save (py ''102'')]"
    using t by (simp add: attempt_event_def falsy_def fstr_def sample_env_def sample_world_def py_def)
  have t2: "fst (main sample_env sample_world) = Inr ()" using t w by simp
  have t3: "last_post_file (snd (main sample_env sample_world)) = Some (py ''102'')"
    using t w l by simp
  show ?thesis by (intro conjI a b h t1 t2 t3)
qed

text \<open>
  Claim C7 (fetch error). When the request for the page raises or is answered with a
  status outside 200..299, \<^verbatim>\<open>get_trump_posts\<close> returns the empty list, and the run
  returns normally with the world as it was: no attempt and no save in the trace, the
  cursor file untouched.
\<close>

theorem fetch_error_quiet:
  "http_get e = GetRaised \<or>
   (\<exists>body. http_get e = GetResponse status_code body \<and> \<not> (200 \<le> status_code \<and> status_code < 300))
   \<Longrightarrow> get_trump_posts e = [] \<and> main e w = (Inr (), w)"
proof -
  assume h: "http_get e = GetRaised \<or>
   (\<exists>body. http_get e = GetResponse status_code body \<and> \<not> (200 \<le> status_code \<and> status_code < 300))"
  then have g: "get_trump_posts e = []"
    by (auto simp: get_trump_posts_def)
  then show ?thesis by (simp add: main_def)
qed

theorem fetch_error_quiet_witness:
  "http_get failing_fetch_env = GetResponse 503 (py ''busy'') \<and>
   \<not> (200 \<le> (503::nat) \<and> (503::nat) < 300) \<and>
   get_trump_posts failing_fetch_env = [] \<and>
   main failing_fetch_env sample_world = (Inr (), sample_world)"
proof -
  have h: "http_get failing_fetch_env = GetResponse 503 (py ''busy'')"
    by (simp add: failing_fetch_env_def sample_env_def)
  have "http_get failing_fetch_env = GetRaised \<or>
    (\<exists>body. http_get failing_fetch_env = GetResponse 503 body \<and> \<not> (200 \<le> (503::nat) \<and> (503::nat) < 300))"
    using h by simp
  from fetch_error_quiet [OF this, of sample_world] h show ?thesis by simp
qed




text \<open>
  Claim C9 (send_line_notification). For every message, configuration and outcome of
  the request the function returns a boolean (an exception of the request is the
  branch \<open>PostRaised\<close>, caught by the \<^verbatim>\<open>except\<close>), and it returns \<^verbatim>\<open>True\<close> exactly
  when the token and the user id are both configured and the request is answered with
  status 200.
\<close>

theorem send_line_notification_result:
  "fst (send_line_notification e message w) =
     (\<not> falsy (LINE_CHANNEL_TOKEN e) \<and> \<not> falsy (LINE_USER_ID e) \<and>
      http_post e (length (trace w)) = PostStatus 200)"
  by (simp add: send_line_notification_def Let_def split: http_outcome.splits)

theorem send_line_notification_result_witness:
  "\<not> fst (send_line_notification sample_env (notification_message p102) sample_world) \<and>
   fst (send_line_notification sample_env (notification_message p101)
          (snd (send_line_notification sample_env (notification_message p102) sample_world))) \<and>
   \<not> fst (send_line_notification (sample_env\<lparr>LINE_USER_ID := None\<rparr>)
          (notification_message p101) sample_world)"
proof -
  have w1: "length (trace (snd (send_line_notification sample_env (notification_message p102) sample_world))) = 1"
    by (simp add: send_line_notification_world sample_world_def)
  have 1: "\<not> fst (send_line_notification sample_env (notification_message p102) sample_world)"
    using send_line_notification_result [of sample_env "notification_message p102" sample_world]
    by (simp add: sample_env_def sample_world_def)
  have hp: "http_post sample_env (length (trace (snd (send_line_notification sample_env
             (notification_message p102) sample_world)))) = PostStatus 200"
    unfolding w1 by (simp add: sample_env_def)
  have cfg: "\<not> falsy (LINE_CHANNEL_TOKEN sample_env) \<and> \<not> falsy (LINE_USER_ID sample_env)"
    by (simp add: sample_env_def falsy_def py_def)
  have 2: "fst (send_line_notification sample_env (notification_message p101)
          (snd (send_line_notification sample_env (notification_message p102) sample_world)))"
    using hp cfg
    by (simp only: send_line_notification_result [of sample_env "notification_message p101"
      "snd (send_line_notification sample_env (notification_message p102) sample_world)"] simp_thms)
  have 3: "\<not> fst (send_line_notification (sample_env\<lparr>LINE_USER_ID := None\<rparr>)
          (notification_message p101) sample_world)"
    using send_line_notification_result [of "sample_env\<lparr>LINE_USER_ID := None\<rparr>" "notification_message p101" sample_world]
    by (simp add: falsy_def)
  show ?thesis by (intro conjI 1 2 3)
qed

text \<open>
  Claim C10, as stated, says that reading after saving \<open>s\<close> gives \<open>s\<close> stripped, and
  \<open>s\<close> itself when \<open>s\<close> has no surrounding whitespace. The string a, carriage
  return, b has no surrounding whitespace and is read back as a, line feed, b.
\<close>

theorem cursor_roundtrip_counterexample:
  "file_write sample_env = Written \<and>
   strip [97, 13, 98] = [97, 13, 98] \<and>
   get_last_processed_id (snd (save_last_processed_id sample_env [97, 13, 98] sample_world))
     = [97, 10, 98] \<and>
   get_last_processed_id (snd (save_last_processed_id sample_env [97, 13, 98] sample_world))
     \<noteq> strip [97, 13, 98]"
  by (simp add: get_last_processed_id_def save_last_processed_id_def Let_def sample_env_def
      strip_def isspace_def)

text \<open>
  Claim C10 (cursor round trip), amended. After a completed save of \<open>s\<close>, reading the
  cursor gives \<open>s\<close> after the newline translation of text mode, stripped; for every
  \<open>s\<close> without a carriage return that is \<open>s\<close> stripped, and \<open>s\<close> itself when \<open>s\<close>
  has no surrounding whitespace either.
\<close>

theorem cursor_roundtrip:
  assumes "file_write e = Written" and "linesep e = [10] \<or> linesep e = [13, 10]"
  shows "get_last_processed_id (snd (save_last_processed_id e s w)) =
           strip (universal_newlines (write_newlines (linesep e) s)) \<and>
         (13 \<notin> set s \<longrightarrow> get_last_processed_id (snd (save_last_processed_id e s w)) = strip s) \<and>
         (13 \<notin> set s \<and> strip s = s \<longrightarrow>
            get_last_processed_id (snd (save_last_processed_id e s w)) = s)"
proof -
  have r: "get_last_processed_id (snd (save_last_processed_id e s w)) =
           strip (universal_newlines (write_newlines (linesep e) s))"
    using assms(1) by (simp add: get_last_processed_id_def save_last_processed_id_def Let_def)
  show ?thesis
    using text_mode_roundtrip [OF assms(2), of s] by (auto simp: r)
qed

theorem cursor_roundtrip_witness:
  "file_write sample_env = Written \<and> linesep sample_env = [10] \<and>
   13 \<notin> set (py '' 102 '') \<and>
   get_last_processed_id (snd (save_last_processed_id sample_env (py '' 102 '') sample_world))
     = py ''102'' \<and>
   strip (py ''102'') = py ''102'' \<and>
   get_last_processed_id (snd (save_last_processed_id sample_env (py ''102'') sample_world))
     = py ''102''"
proof -
  have w: "file_write sample_env = Written" by (simp add: sample_env_def)
  have l: "linesep sample_env = [10]" by (simp add: sample_env_def)
  have l': "linesep sample_env = [10] \<or> linesep sample_env = [13, 10]" using l by simp
  have n1: "13 \<notin> set (py '' 102 '')" by (simp add: py_def)
  have n2: "13 \<notin> set (py ''102'')" by (simp add: py_def)
  have s1: "strip (py '' 102 '') = py ''102''" by (simp add: strip_def isspace_def py_def)
  have s2: "strip (py ''102'') = py ''102''" by (simp add: strip_def isspace_def py_def)
  have 1: "get_last_processed_id (snd (save_last_processed_id sample_env (py '' 102 '') sample_world))
     = py ''102''"
  proof -
    have "get_last_processed_id (snd (save_last_processed_id sample_env (py '' 102 '') sample_world))
      = strip (py '' 102 '')"
      using cursor_roundtrip [OF w l', of "py '' 102 ''" sample_world] n1 by blast
    then show ?thesis by (simp only: s1)
  qed
  have 2: "get_last_processed_id (snd (save_last_processed_id sample_env (py ''102'') sample_world))
     = py ''102''"
    using cursor_roundtrip [OF w l', of "py ''102''" sample_world] n2 s2 by blast
  show ?thesis by (intro conjI w l n1 1 s2 2)
qed

end
